theory Spec2Isabelle
  imports Complex_Main "HOL-Library.Char_ord" "HOL-Library.List_Lexorder"
    "HOL-Library.Multiset"
begin

section \<open>Strings\<close>

text \<open>
  A Python \<open>str\<close> is modelled by its UTF-8 encoding, a \<open>string\<close> (list of 8-bit
  characters). Comparing two such strings byte by byte orders them as Python orders
  the strings they encode, by code point.
\<close>

definition newline :: string where
  "newline = [CHR 0x0A]"

text \<open>\<open>sep.join(xs)\<close>\<close>

fun join :: "string \<Rightarrow> string list \<Rightarrow> string" where
  "join sep [] = []"
| "join sep [x] = x"
| "join sep (x # y # ys) = x @ sep @ join sep (y # ys)"

text \<open>\<open>xs[-n:]\<close> for \<open>n > 0\<close>: the last \<open>n\<close> elements, all of them when there are fewer.\<close>

definition last_n :: "nat \<Rightarrow> 'a list \<Rightarrow> 'a list" where
  "last_n n xs = drop (length xs - n) xs"

definition startswith :: "string \<Rightarrow> string \<Rightarrow> bool" where
  "startswith s p = (take (length p) s = p)"

definition endswith :: "string \<Rightarrow> string \<Rightarrow> bool" where
  "endswith s p = (length p \<le> length s \<and> drop (length s - length p) s = p)"

text \<open>
  The characters for which Python's \<open>str.isspace\<close> holds, each as its UTF-8 encoding:
  U+0009..U+000D, U+001C..U+0020, U+0085, U+00A0, U+1680, U+2000..U+200A, U+2028,
  U+2029, U+202F, U+205F, U+3000.
\<close>

definition whitespace :: "string list" where
  "whitespace =
     [[CHR 0x09], [CHR 0x0A], [CHR 0x0B], [CHR 0x0C], [CHR 0x0D],
      [CHR 0x1C], [CHR 0x1D], [CHR 0x1E], [CHR 0x1F], [CHR 0x20],
      [CHR 0xC2, CHR 0x85], [CHR 0xC2, CHR 0xA0],
      [CHR 0xE1, CHR 0x9A, CHR 0x80],
      [CHR 0xE2, CHR 0x80, CHR 0x80], [CHR 0xE2, CHR 0x80, CHR 0x81],
      [CHR 0xE2, CHR 0x80, CHR 0x82], [CHR 0xE2, CHR 0x80, CHR 0x83],
      [CHR 0xE2, CHR 0x80, CHR 0x84], [CHR 0xE2, CHR 0x80, CHR 0x85],
      [CHR 0xE2, CHR 0x80, CHR 0x86], [CHR 0xE2, CHR 0x80, CHR 0x87],
      [CHR 0xE2, CHR 0x80, CHR 0x88], [CHR 0xE2, CHR 0x80, CHR 0x89],
      [CHR 0xE2, CHR 0x80, CHR 0x8A], [CHR 0xE2, CHR 0x80, CHR 0xA8],
      [CHR 0xE2, CHR 0x80, CHR 0xA9], [CHR 0xE2, CHR 0x80, CHR 0xAF],
      [CHR 0xE2, CHR 0x81, CHR 0x9F], [CHR 0xE3, CHR 0x80, CHR 0x80]]"

text \<open>The length of the whitespace character a string begins with, if it begins with one.\<close>

definition leading_space :: "string list \<Rightarrow> string \<Rightarrow> nat option" where
  "leading_space ws s = map_option length (find (startswith s) ws)"

function lstrip_with :: "string list \<Rightarrow> string \<Rightarrow> string" where
  "lstrip_with ws s =
     (case leading_space ws s of
        None \<Rightarrow> s
      | Some k \<Rightarrow> if k = 0 \<or> s = [] then s else lstrip_with ws (drop k s))"
  by pat_completeness auto
termination
  by (relation "measure (\<lambda>(ws, s). length s)") auto

declare lstrip_with.simps [simp del]

definition lstrip :: "string \<Rightarrow> string" where
  "lstrip s = lstrip_with whitespace s"

text \<open>Stripping at the end is stripping the reversed string of the reversed encodings.\<close>

definition rstrip :: "string \<Rightarrow> string" where
  "rstrip s = rev (lstrip_with (map rev whitespace) (rev s))"

text \<open>\<open>s.strip()\<close>\<close>

definition strip :: "string \<Rightarrow> string" where
  "strip s = rstrip (lstrip s)"

text \<open>\<open>str(n)\<close> and \<open>"%d" % n\<close> for an integer; \<open>"%02d" % n\<close> and \<open>"%03d" % n\<close> for a natural number.\<close>

fun str_nat :: "nat \<Rightarrow> string" where
  "str_nat n =
     (if n < 10 then [''0123456789'' ! n]
      else str_nat (n div 10) @ [''0123456789'' ! (n mod 10)])"

declare str_nat.simps [simp del]

definition str_int :: "int \<Rightarrow> string" where
  "str_int n = (if n < 0 then ''-'' @ str_nat (nat (- n)) else str_nat (nat n))"

definition zero_pad :: "nat \<Rightarrow> nat \<Rightarrow> string" where
  "zero_pad w n = replicate (w - length (str_nat n)) CHR ''0'' @ str_nat n"

section \<open>Time formatting\<close>

text \<open>
  Times are Python floats; they are modelled as real numbers, and \<open>int(x)\<close> as
  truncation toward zero.
\<close>

definition py_int :: "real \<Rightarrow> int" where
  "py_int x = (if 0 \<le> x then \<lfloor>x\<rfloor> else \<lceil>x\<rceil>)"

text \<open>
  \<open>str(timedelta(seconds=n))\<close> for an integer \<open>n\<close>: the days are \<open>n\<close> floor-divided by
  86400 and are printed only when they are not zero; the rest is hours, minutes and
  seconds of the remainder. (The library refuses more than 999999999 days; the
  model is of times within that range.)
\<close>

definition timedelta_str :: "int \<Rightarrow> string" where
  "timedelta_str n =
     (let days = n div 86400;
          seconds = nat (n mod 86400);
          mm = seconds div 60;
          ss = seconds mod 60;
          hh = mm div 60;
          mm = mm mod 60;
          s = str_nat hh @ '':'' @ zero_pad 2 mm @ '':'' @ zero_pad 2 ss
      in if days \<noteq> 0
         then str_int days @ '' day'' @ (if \<bar>days\<bar> \<noteq> 1 then ''s'' else '''') @ '', '' @ s
         else s)"

definition format_time :: "real \<Rightarrow> string" where
  "format_time seconds = timedelta_str (py_int seconds)"

section \<open>Progress estimate\<close>

text \<open>
  The estimate computed after chunk \<open>i\<close> of \<open>total_chunks\<close>, \<open>elapsed\<close> seconds after
  the start: the pair \<open>(avg_time, eta)\<close>.
\<close>

definition estimate :: "nat \<Rightarrow> nat \<Rightarrow> real \<Rightarrow> real \<times> real" where
  "estimate i total_chunks elapsed =
     (let avg_time = elapsed / real_of_int (int i + 1);
          eta = avg_time * real_of_int (int total_chunks - int i - 1)
      in (avg_time, eta))"

section \<open>Data and collaborators\<close>

text \<open>A segment of the engine's result: the entries \<open>start\<close>, \<open>end\<close> and \<open>text\<close>.\<close>

record segment =
  seg_start :: real
  seg_end :: real
  seg_text :: string

text \<open>The engine's result is a dictionary; its entry \<open>segments\<close> may be missing.\<close>

record whisper_result =
  segments :: "segment list option"

text \<open>
  The input is a pair of sample rate and samples (the samples may be \<open>None\<close>) when it
  was recorded, and a path otherwise.
\<close>

datatype audio_input = Recorded int "int list option" | FilePath string

datatype error = ValueError string | SplitFailed | EngineFailed | WriteFailed

datatype file_content = Wav int "int list" | Text string

datatype call = Ffmpeg string int string | Whisper string string

text \<open>A yielded triple: status, transcript text, path of the transcript file.\<close>

record event =
  status :: string
  preview :: string
  artifact :: "string option"

text \<open>
  What the program does not decide itself: the names of fresh temporary directories,
  the files \<open>ffmpeg\<close> leaves in the directory of its output pattern (or the failure of
  the call), the loaded model's answer for a chunk and a language (or its failure),
  the successive readings of the clock, \<open>Path(p).stem\<close>, and whether a file can be
  opened and written.
\<close>

record env =
  mkdtemp :: "nat \<Rightarrow> string"
  ffmpeg :: "string \<Rightarrow> int \<Rightarrow> string \<Rightarrow> error + string list"
  engine :: "string \<Rightarrow> string \<Rightarrow> error + whisper_result"
  clock :: "nat \<Rightarrow> real"
  stem :: "string \<Rightarrow> string"
  can_write :: "string \<Rightarrow> bool"

text \<open>
  What a run changes: the files written, the temporary directories made, the clock
  readings taken, and the calls made to \<open>ffmpeg\<close> and to the engine.
\<close>

record state =
  files :: "string \<rightharpoonup> file_content"
  tmp_count :: nat
  ticks :: nat
  calls :: "call list"

definition time_time :: "env \<Rightarrow> state \<Rightarrow> real \<times> state" where
  "time_time e s = (clock e (ticks s), s\<lparr>ticks := Suc (ticks s)\<rparr>)"

text \<open>\<open>os.path.join(d, f)\<close> for two components.\<close>

definition path_join :: "string \<Rightarrow> string \<Rightarrow> string" where
  "path_join d f =
     (if startswith f ''/'' then f
      else if d = [] \<or> endswith d ''/'' then d @ f
      else d @ ''/'' @ f)"

section \<open>The pipeline\<close>

definition save_recorded_audio ::
  "env \<Rightarrow> state \<Rightarrow> int list option \<Rightarrow> int \<Rightarrow> (error + string) \<times> state" where
  "save_recorded_audio e s audio_np sr =
     (case audio_np of
        None \<Rightarrow> (Inl (ValueError ''No audio data received from microphone.''), s)
      | Some samples \<Rightarrow>
          if length samples = 0
          then (Inl (ValueError ''No audio data received from microphone.''), s)
          else
            (let temp_dir = mkdtemp e (tmp_count s);
                 temp_path = path_join temp_dir ''recorded.wav''
             in (Inr temp_path,
                 s\<lparr>tmp_count := Suc (tmp_count s),
                   files := (files s)(temp_path \<mapsto> Wav sr samples)\<rparr>)))"

definition split_audio ::
  "env \<Rightarrow> state \<Rightarrow> string \<Rightarrow> int \<Rightarrow> (error + string list) \<times> state" where
  "split_audio e s file_path chunk_duration =
     (let tmp_dir = mkdtemp e (tmp_count s);
          chunk_pattern = path_join tmp_dir ''chunk_%03d.wav'';
          s' = s\<lparr>tmp_count := Suc (tmp_count s),
                 calls := calls s @ [Ffmpeg file_path chunk_duration chunk_pattern]\<rparr>
      in case ffmpeg e file_path chunk_duration chunk_pattern of
           Inl err \<Rightarrow> (Inl err, s')
         | Inr listing \<Rightarrow>
             (Inr (sort (map (path_join tmp_dir)
                          (filter (\<lambda>f. endswith f ''.wav'') listing))), s'))"

text \<open>The \<open>try\<close> block of \<open>transcribe\<close>: the audio file and the name of the transcript.\<close>

definition resolve_input ::
  "env \<Rightarrow> state \<Rightarrow> audio_input \<Rightarrow> (error + string \<times> string) \<times> state" where
  "resolve_input e s audio_input =
     (case audio_input of
        Recorded sr audio_np \<Rightarrow>
          (case save_recorded_audio e s audio_np sr of
             (Inl err, s') \<Rightarrow> (Inl err, s')
           | (Inr audio_file, s') \<Rightarrow> (Inr (audio_file, ''recorded_audio''), s'))
      | FilePath audio_file \<Rightarrow> (Inr (audio_file, stem e audio_file), s))"

text \<open>The chunk list: the audio file itself, replaced when \<open>chunk_duration > 0\<close>.\<close>

definition get_chunks ::
  "env \<Rightarrow> state \<Rightarrow> string \<Rightarrow> int \<Rightarrow> (error + string list) \<times> state" where
  "get_chunks e s audio_file chunk_duration =
     (if chunk_duration > 0 then split_audio e s audio_file chunk_duration
      else (Inr [audio_file], s))"

definition format_segment :: "segment \<Rightarrow> string" where
  "format_segment seg =
     (let start = format_time (seg_start seg);
          end = format_time (seg_end seg);
          text = strip (seg_text seg)
      in ''['' @ start @ '' - '' @ end @ '']: '' @ text)"

definition result_lines :: "whisper_result \<Rightarrow> string list" where
  "result_lines result =
     map format_segment (case segments result of None \<Rightarrow> [] | Some segs \<Rightarrow> segs)"

text \<open>The three status texts; the symbols in front are U+274C, U+1F504, U+23F1 and U+2705.\<close>

definition failed_status :: "error \<Rightarrow> string" where
  "failed_status err =
     [CHR 0xE2, CHR 0x9D, CHR 0x8C] @ '' Recording failed: ''
       @ (case err of ValueError msg \<Rightarrow> msg | _ \<Rightarrow> [])"

definition progress_status :: "nat \<Rightarrow> nat \<Rightarrow> real \<Rightarrow> real \<Rightarrow> string" where
  "progress_status i total_chunks elapsed eta =
     [CHR 0xF0, CHR 0x9F, CHR 0x94, CHR 0x84] @ '' Chunk '' @ str_nat (i + 1) @ ''/''
       @ str_nat total_chunks @ '' | '' @ [CHR 0xE2, CHR 0x8F, CHR 0xB1] @ '' Elapsed: ''
       @ format_time elapsed @ '' | ETA: '' @ format_time eta"

definition done_status :: "real \<Rightarrow> string" where
  "done_status total_time =
     [CHR 0xE2, CHR 0x9C, CHR 0x85] @ '' Done in '' @ format_time total_time"

text \<open>
  One pass of the loop over \<open>enumerate(chunks)\<close> for chunk \<open>i\<close>, given the result of
  the engine: the lines so far with the chunk's lines appended, the event yielded,
  and the state.
\<close>

definition chunk_step ::
  "env \<Rightarrow> nat \<Rightarrow> real \<Rightarrow> nat \<Rightarrow> whisper_result \<Rightarrow> string list \<Rightarrow> state
     \<Rightarrow> string list \<times> event \<times> state" where
  "chunk_step e total_chunks start_time i result transcript_lines s =
     (let transcript_lines = transcript_lines @ result_lines result;
          (now, s) = time_time e s;
          elapsed = now - start_time;
          (avg_time, eta) = estimate i total_chunks elapsed;
          progress_status = progress_status i total_chunks elapsed eta;
          current_transcript = join newline (last_n 10 transcript_lines)
      in (transcript_lines,
          \<lparr>status = progress_status, preview = current_transcript, artifact = None\<rparr>,
          s))"

text \<open>
  The loop from chunk \<open>i\<close> on: the events yielded, then either the error the engine
  raised or all transcript lines, and the state.
\<close>

fun process_chunks ::
  "env \<Rightarrow> string \<Rightarrow> nat \<Rightarrow> real \<Rightarrow> nat \<Rightarrow> string list \<Rightarrow> string list \<Rightarrow> state
     \<Rightarrow> event list \<times> (error + string list) \<times> state" where
  "process_chunks e language total_chunks start_time i [] transcript_lines s =
     ([], Inr transcript_lines, s)"
| "process_chunks e language total_chunks start_time i (chunk # rest) transcript_lines s =
     (let s = s\<lparr>calls := calls s @ [Whisper chunk language]\<rparr>
      in case engine e chunk language of
           Inl err \<Rightarrow> ([], Inl err, s)
         | Inr result \<Rightarrow>
             (case chunk_step e total_chunks start_time i result transcript_lines s of
                (transcript_lines, ev, s) \<Rightarrow>
                  (case process_chunks e language total_chunks start_time (Suc i) rest
                          transcript_lines s of
                     (evs, r, s) \<Rightarrow> (ev # evs, r, s))))"

text \<open>
  A run of the generator to its end: the events it yielded, the exception that ended
  it if one did, and the state it left.
\<close>

record run =
  events :: "event list"
  raised :: "error option"
  final :: state

definition output_path :: "string \<Rightarrow> string" where
  "output_path file_name = ''transcriptions/'' @ file_name @ ''.txt''"

text \<open>
  \<open>transcribe\<close> from its \<open>try\<close> block on, with the model loaded and the directory
  \<open>transcriptions\<close> made.
\<close>

definition transcribe :: "env \<Rightarrow> state \<Rightarrow> audio_input \<Rightarrow> string \<Rightarrow> int \<Rightarrow> run" where
  "transcribe e s audio_input language chunk_duration =
     (case resolve_input e s audio_input of
        (Inl err, s) \<Rightarrow>
          \<lparr>events = [\<lparr>status = failed_status err, preview = [], artifact = None\<rparr>],
           raised = None, final = s\<rparr>
      | (Inr (audio_file, file_name), s) \<Rightarrow>
          (let output_txt_path = output_path file_name
           in case get_chunks e s audio_file chunk_duration of
                (Inl err, s) \<Rightarrow> \<lparr>events = [], raised = Some err, final = s\<rparr>
              | (Inr chunks, s) \<Rightarrow>
                  (let total_chunks = length chunks;
                       (start_time, s) = time_time e s
                   in case process_chunks e language total_chunks start_time 0 chunks [] s of
                        (evs, Inl err, s) \<Rightarrow> \<lparr>events = evs, raised = Some err, final = s\<rparr>
                      | (evs, Inr transcript_lines, s) \<Rightarrow>
                          if \<not> can_write e output_txt_path
                          then \<lparr>events = evs, raised = Some WriteFailed, final = s\<rparr>
                          else
                            (let s = s\<lparr>files := (files s)(output_txt_path \<mapsto>
                                          Text (join newline transcript_lines))\<rparr>;
                                 full_transcript = join newline transcript_lines;
                                 (now, s) = time_time e s;
                                 total_time = now - start_time
                             in \<lparr>events = evs @
                                   [\<lparr>status = done_status total_time,
                                     preview = full_transcript,
                                     artifact = Some output_txt_path\<rparr>],
                                 raised = None, final = s\<rparr>))))"

text \<open>
  The events are told apart by their status: a chunk event begins with U+1F504, a
  terminal event with U+2705 (success) or U+274C (failure).
\<close>

definition is_chunk_event :: "event \<Rightarrow> bool" where
  "is_chunk_event ev = startswith (status ev) [CHR 0xF0, CHR 0x9F, CHR 0x94, CHR 0x84]"

definition is_success_event :: "event \<Rightarrow> bool" where
  "is_success_event ev = startswith (status ev) [CHR 0xE2, CHR 0x9C, CHR 0x85]"

definition is_error_event :: "event \<Rightarrow> bool" where
  "is_error_event ev = startswith (status ev) [CHR 0xE2, CHR 0x9D, CHR 0x8C]"

definition is_terminal_event :: "event \<Rightarrow> bool" where
  "is_terminal_event ev = (is_success_event ev \<or> is_error_event ev)"

section \<open>Lines of a chunk, and a sample environment\<close>

text \<open>The display lines the loop appends for a chunk: none when the engine fails on it.\<close>

definition chunk_lines :: "env \<Rightarrow> string \<Rightarrow> string \<Rightarrow> string list" where
  "chunk_lines e language chunk =
     (case engine e chunk language of Inl err \<Rightarrow> [] | Inr result \<Rightarrow> result_lines result)"

text \<open>
  A small environment: the splitter leaves two chunks and a log file, the engine
  answers every chunk with the same two segments, the clock advances by three seconds
  a reading.
\<close>

definition demo_result :: whisper_result where
  "demo_result =
     \<lparr>segments = Some [\<lparr>seg_start = 0, seg_end = 2.5, seg_text = '' hello''\<rparr>,
                        \<lparr>seg_start = 2.5, seg_end = 3661, seg_text = '' world ''\<rparr>]\<rparr>"

definition demo_env :: env where
  "demo_env =
     \<lparr>mkdtemp = (\<lambda>k. ''/tmp/tmp'' @ str_nat k),
      ffmpeg = (\<lambda>file_path chunk_duration chunk_pattern.
                  Inr [''chunk_001.wav'', ''ffmpeg.log'', ''chunk_000.wav'']),
      engine = (\<lambda>chunk language. Inr demo_result),
      clock = (\<lambda>k. 100 + 3 * real k),
      stem = (\<lambda>p. ''talk''),
      can_write = (\<lambda>p. True)\<rparr>"

definition empty_state :: state where
  "empty_state = \<lparr>files = Map.empty, tmp_count = 0, ticks = 0, calls = []\<rparr>"

text \<open>The engine answers for a chunk.\<close>

definition engine_ok :: "env \<Rightarrow> string \<Rightarrow> string \<Rightarrow> bool" where
  "engine_ok e language chunk =
     (case engine e chunk language of Inl err \<Rightarrow> False | Inr result \<Rightarrow> True)"

text \<open>The sample environment with a transcript file that cannot be written.\<close>

definition readonly_env :: env where
  "readonly_env = demo_env\<lparr>can_write := (\<lambda>p. False)\<rparr>"

text \<open>The sample environment with a splitter that leaves no file behind.\<close>

definition silent_env :: env where
  "silent_env = demo_env\<lparr>ffmpeg := (\<lambda>file_path chunk_duration chunk_pattern. Inr [])\<rparr>"

text \<open>The sample environment with an engine that answers six segments for every chunk.\<close>

definition talk_env :: env where
  "talk_env =
     demo_env\<lparr>engine := (\<lambda>chunk language.
       Inr \<lparr>segments = Some (map (\<lambda>k. \<lparr>seg_start = real k, seg_end = real k + 1,
                                         seg_text = str_nat k\<rparr>) [0..<6])\<rparr>)\<rparr>"

text \<open>
  The display line as the specification words it, to compare with \<open>format_segment\<close>:
  hours, two-digit minutes and two-digit seconds of the whole seconds of a time, and
  the segment's text as it is.
\<close>

definition spec_hms :: "nat \<Rightarrow> string" where
  "spec_hms n =
     str_nat (n div 3600) @ '':'' @ zero_pad 2 (n div 60 mod 60) @ '':'' @ zero_pad 2 (n mod 60)"

definition spec_display_line :: "segment \<Rightarrow> string" where
  "spec_display_line seg =
     ''['' @ spec_hms (nat \<lfloor>seg_start seg\<rfloor>) @ '' - '' @ spec_hms (nat \<lfloor>seg_end seg\<rfloor>)
       @ '']: '' @ seg_text seg"

text \<open>
  The name the splitter gives its \<open>k\<close>-th segment: the base name of the pattern
  \<open>chunk_%03d.wav\<close> with the counter filled in, which starts at 0 and is padded to
  three digits, never cut.
\<close>

definition segment_file_name :: "nat \<Rightarrow> string" where
  "segment_file_name k = ''chunk_'' @ zero_pad 3 k @ ''.wav''"

text \<open>The sample environment with a recording that the splitter cuts into 1001 segments.\<close>

definition long_env :: env where
  "long_env =
     demo_env\<lparr>ffmpeg := (\<lambda>file_path chunk_duration chunk_pattern.
       Inr (map segment_file_name [0..<1001]))\<rparr>"

section \<open>The loop\<close>

lemma chunk_lines_ok: "engine e c lang = Inr res \<Longrightarrow> chunk_lines e lang c = result_lines res"
  by (simp add: chunk_lines_def)

lemma chunk_step_lines:
  "fst (chunk_step e tot t0 i res ls s) = ls @ result_lines res"
  by (simp add: chunk_step_def Let_def split: prod.splits)

lemma chunk_step_event:
  assumes "chunk_step e tot t0 i res ls s = (ls', ev, s')"
  shows "preview ev = join newline (last_n 10 (ls @ result_lines res))"
    and "artifact ev = None"
    and "is_chunk_event ev"
    and "\<not> is_terminal_event ev"
  using assms
  by (auto simp: chunk_step_def Let_def progress_status_def is_chunk_event_def
      is_terminal_event_def is_success_event_def is_error_event_def startswith_def
      split: prod.splits)

lemma chunk_step_state:
  assumes "chunk_step e tot t0 i res ls s = (ls', ev, s')"
  shows "files s' = files s" and "calls s' = calls s" and "tmp_count s' = tmp_count s"
  using assms
  by (auto simp: chunk_step_def Let_def time_time_def split: prod.splits)

lemma process_chunks_length:
  "process_chunks e lang tot t0 i cs ls s = (evs, r, s') \<Longrightarrow> length evs \<le> length cs"
proof (induction cs arbitrary: i ls s evs r s')
  case Nil
  then show ?case by simp
next
  case (Cons c cs)
  then show ?case
    by (fastforce simp: Let_def split: sum.splits prod.splits)
qed

lemma process_chunks_done:
  "process_chunks e lang tot t0 i cs ls s = (evs, Inr out, s') \<Longrightarrow>
     length evs = length cs \<and> out = ls @ concat (map (chunk_lines e lang) cs)"
proof (induction cs arbitrary: i ls s evs s')
  case Nil
  then show ?case by simp
next
  case (Cons c cs)
  from Cons.prems obtain res where res: "engine e c lang = Inr res"
    by (auto simp: Let_def split: sum.splits)
  obtain ls1 ev s1 where st: "chunk_step e tot t0 i res ls (s\<lparr>calls := calls s @ [Whisper c lang]\<rparr>) = (ls1, ev, s1)"
    by (metis prod_cases3)
  obtain evs1 r1 s2 where rec: "process_chunks e lang tot t0 (Suc i) cs ls1 s1 = (evs1, r1, s2)"
    by (metis prod_cases3)
  from Cons.prems res st rec have eq: "evs = ev # evs1" "r1 = Inr out" "s' = s2"
    by (auto simp: Let_def)
  from Cons.IH [of "Suc i" ls1 s1 evs1 s2] rec eq
  have "length evs1 = length cs" "out = ls1 @ concat (map (chunk_lines e lang) cs)"
    by auto
  moreover have "ls1 = ls @ result_lines res"
    using chunk_step_lines [of e tot t0 i res ls] st by (metis fst_conv)
  ultimately show ?case
    using eq chunk_lines_ok [OF res] by simp
qed

lemma process_chunks_all_ok:
  "\<forall>c \<in> set cs. \<exists>res. engine e c lang = Inr res \<Longrightarrow>
     \<exists>evs out s'. process_chunks e lang tot t0 i cs ls s = (evs, Inr out, s')"
proof (induction cs arbitrary: i ls s)
  case Nil
  then show ?case by simp
next
  case (Cons c cs)
  then obtain res where res: "engine e c lang = Inr res" by auto
  obtain ls1 ev s1 where st: "chunk_step e tot t0 i res ls (s\<lparr>calls := calls s @ [Whisper c lang]\<rparr>) = (ls1, ev, s1)"
    by (metis prod_cases3)
  from Cons obtain evs1 out s2 where "process_chunks e lang tot t0 (Suc i) cs ls1 s1 = (evs1, Inr out, s2)"
    by fastforce
  with res st show ?case by (simp add: Let_def)
qed

lemma process_chunks_failed:
  "process_chunks e lang tot t0 i cs ls s = (evs, Inl err, s') \<Longrightarrow> length evs < length cs"
proof (induction cs arbitrary: i ls s evs s')
  case Nil
  then show ?case by simp
next
  case (Cons c cs)
  then show ?case
    by (fastforce simp: Let_def split: sum.splits prod.splits)
qed

lemma process_chunks_events:
  "process_chunks e lang tot t0 i cs ls s = (evs, r, s') \<Longrightarrow> k < length evs \<Longrightarrow>
     preview (evs ! k) =
       join newline (last_n 10 (ls @ concat (map (chunk_lines e lang) (take (Suc k) cs))))
     \<and> artifact (evs ! k) = None \<and> is_chunk_event (evs ! k) \<and> \<not> is_terminal_event (evs ! k)"
proof (induction cs arbitrary: i ls s evs r s' k)
  case Nil
  then show ?case by simp
next
  case (Cons c cs)
  from Cons.prems obtain res where res: "engine e c lang = Inr res"
    by (auto simp: Let_def split: sum.splits)
  obtain ls1 ev s1 where st: "chunk_step e tot t0 i res ls (s\<lparr>calls := calls s @ [Whisper c lang]\<rparr>) = (ls1, ev, s1)"
    by (metis prod_cases3)
  obtain evs1 r1 s2 where rec: "process_chunks e lang tot t0 (Suc i) cs ls1 s1 = (evs1, r1, s2)"
    by (metis prod_cases3)
  from Cons.prems res st rec have eq: "evs = ev # evs1"
    by (auto simp: Let_def)
  have ls1: "ls1 = ls @ chunk_lines e lang c"
    using chunk_step_lines [of e tot t0 i res ls] st chunk_lines_ok [OF res]
    by (metis fst_conv)
  show ?case
  proof (cases k)
    case 0
    with eq chunk_step_event [OF st] chunk_lines_ok [OF res] show ?thesis
      by simp
  next
    case (Suc j)
    with Cons.prems eq have "j < length evs1" by simp
    from Cons.IH [OF rec this] Suc eq ls1 show ?thesis by simp
  qed
qed


lemma transcribe_unfold:
  assumes "resolve_input e s inp = (Inr (af, nm), s1)"
    and "get_chunks e s1 af d = (Inr chunks, s2)"
    and "process_chunks e lang (length chunks) (clock e (ticks s2)) 0 chunks []
           (s2\<lparr>ticks := Suc (ticks s2)\<rparr>) = (evs, r, s3)"
  shows "transcribe e s inp lang d =
     (case r of
        Inl err \<Rightarrow> \<lparr>events = evs, raised = Some err, final = s3\<rparr>
      | Inr ls \<Rightarrow>
          if \<not> can_write e (output_path nm)
          then \<lparr>events = evs, raised = Some WriteFailed, final = s3\<rparr>
          else \<lparr>events = evs @
                  [\<lparr>status = done_status (clock e (ticks s3) - clock e (ticks s2)),
                    preview = join newline ls,
                    artifact = Some (output_path nm)\<rparr>],
                raised = None,
                final = s3\<lparr>files := (files s3)(output_path nm \<mapsto> Text (join newline ls)),
                          ticks := Suc (ticks s3)\<rparr>\<rparr>)"
  using assms
  by (simp add: transcribe_def Let_def time_time_def split: sum.splits)

lemma done_event_kind:
  "is_success_event \<lparr>status = done_status t, preview = p, artifact = a\<rparr>"
  "is_terminal_event \<lparr>status = done_status t, preview = p, artifact = a\<rparr>"
  "\<not> is_chunk_event \<lparr>status = done_status t, preview = p, artifact = a\<rparr>"
  by (simp_all add: is_success_event_def is_terminal_event_def is_chunk_event_def
      done_status_def startswith_def)

lemma startswith_Cons: "startswith s (c # p) = (\<exists>t. s = c # t \<and> startswith t p)"
  by (cases s) (auto simp: startswith_def)

lemma chunk_event_not_success: "is_chunk_event ev \<Longrightarrow> \<not> is_success_event ev"
  by (auto simp: is_chunk_event_def is_success_event_def startswith_Cons)

lemma process_chunks_calls:
  "process_chunks e lang tot t0 i cs ls s = (evs, r, s') \<Longrightarrow>
     calls s' = calls s @ map (\<lambda>c. Whisper c lang) (take (Suc (length evs)) cs)
     \<and> files s' = files s \<and> tmp_count s' = tmp_count s"
proof (induction cs arbitrary: i ls s evs r s')
  case Nil
  then show ?case by simp
next
  case (Cons c cs)
  let ?s = "s\<lparr>calls := calls s @ [Whisper c lang]\<rparr>"
  show ?case
  proof (cases "engine e c lang")
    case (Inl err)
    with Cons.prems show ?thesis by (auto simp: Let_def)
  next
    case (Inr res)
    obtain ls1 ev s1 where st: "chunk_step e tot t0 i res ls ?s = (ls1, ev, s1)"
      by (metis prod_cases3)
    obtain evs1 r1 s2 where rec: "process_chunks e lang tot t0 (Suc i) cs ls1 s1 = (evs1, r1, s2)"
      by (metis prod_cases3)
    from Cons.prems Inr st rec have eq: "evs = ev # evs1" "s' = s2"
      by (auto simp: Let_def)
    from Cons.IH [OF rec] chunk_step_state [OF st] eq show ?thesis by simp
  qed
qed

lemma transcribe_events:
  assumes "resolve_input e s inp = (Inr (af, nm), s1)"
    and "get_chunks e s1 af d = (Inr chunks, s2)"
  obtains evs r s3 where
    "process_chunks e lang (length chunks) (clock e (ticks s2)) 0 chunks []
       (s2\<lparr>ticks := Suc (ticks s2)\<rparr>) = (evs, r, s3)"
    and "events (transcribe e s inp lang d) =
       (case r of
          Inl err \<Rightarrow> evs
        | Inr ls \<Rightarrow>
            if can_write e (output_path nm)
            then evs @ [\<lparr>status = done_status (clock e (ticks s3) - clock e (ticks s2)),
                         preview = join newline ls, artifact = Some (output_path nm)\<rparr>]
            else evs)"
proof -
  obtain evs r s3 where pc:
    "process_chunks e lang (length chunks) (clock e (ticks s2)) 0 chunks []
       (s2\<lparr>ticks := Suc (ticks s2)\<rparr>) = (evs, r, s3)"
    by (metis prod_cases3)
  from transcribe_unfold [OF assms pc] have
    "events (transcribe e s inp lang d) =
       (case r of
          Inl err \<Rightarrow> evs
        | Inr ls \<Rightarrow>
            if can_write e (output_path nm)
            then evs @ [\<lparr>status = done_status (clock e (ticks s3) - clock e (ticks s2)),
                         preview = join newline ls, artifact = Some (output_path nm)\<rparr>]
            else evs)"
    by (simp split: sum.splits)
  with pc that show thesis by blast
qed

lemma format_time_within_a_day:
  assumes "0 \<le> x" and "x < 86400"
  shows "format_time x = spec_hms (nat \<lfloor>x\<rfloor>)"
proof -
  from assms have n: "0 \<le> \<lfloor>x\<rfloor>" "\<lfloor>x\<rfloor> < 86400"
    by (simp_all add: floor_less_iff)
  then have d: "\<lfloor>x\<rfloor> div 86400 = 0" and m: "\<lfloor>x\<rfloor> mod 86400 = \<lfloor>x\<rfloor>"
    by simp_all
  have h: "nat \<lfloor>x\<rfloor> div 60 div 60 = nat \<lfloor>x\<rfloor> div 3600"
    by (simp add: div_mult2_eq [symmetric])
  from assms(1) show ?thesis
    by (simp add: format_time_def py_int_def timedelta_str_def Let_def d m h spec_hms_def)
qed

subsection \<open>Names of the segment files\<close>

lemma digit_code:
  assumes "a < 10"
  shows "(of_char (''0123456789'' ! a) :: nat) = 48 + a"
proof -
  from assms have "a \<in> {0, 1, 2, 3, 4, 5, 6, 7, 8, 9}"
    by auto
  then show ?thesis
    by auto
qed

lemma digit_less:
  assumes "a < 10" and "b < 10"
  shows "(''0123456789'' ! a < ''0123456789'' ! b) = (a < b)"
  using digit_code [OF assms(1)] digit_code [OF assms(2)]
  by (simp add: less_char_def)

lemma digit_eq:
  assumes "a < 10" and "b < 10"
  shows "(''0123456789'' ! a = ''0123456789'' ! b) = (a = b)"
  using digit_less [OF assms] digit_less [OF assms(2,1)]
  by (metis less_irrefl linorder_neqE_nat)

lemma str_nat_one: "k < 10 \<Longrightarrow> str_nat k = [''0123456789'' ! k]"
  by (subst str_nat.simps) simp

lemma str_nat_two:
  assumes "10 \<le> k" and "k < 100"
  shows "str_nat k = [''0123456789'' ! (k div 10), ''0123456789'' ! (k mod 10)]"
proof -
  from assms have "k div 10 < 10" by simp
  then have "str_nat (k div 10) = [''0123456789'' ! (k div 10)]"
    by (rule str_nat_one)
  with assms(1) show ?thesis
    by (subst str_nat.simps) simp
qed

lemma str_nat_three:
  assumes "100 \<le> k" and "k < 1000"
  shows "str_nat k =
    [''0123456789'' ! (k div 100), ''0123456789'' ! (k div 10 mod 10), ''0123456789'' ! (k mod 10)]"
proof -
  from assms have "10 \<le> k div 10" "k div 10 < 100" by simp_all
  then have "str_nat (k div 10) =
      [''0123456789'' ! (k div 10 div 10), ''0123456789'' ! (k div 10 mod 10)]"
    by (rule str_nat_two)
  moreover have "k div 10 div 10 = k div 100"
    by (simp add: div_mult2_eq [symmetric])
  ultimately show ?thesis
    using assms(1) by (subst str_nat.simps) simp
qed

lemma zero_pad_three:
  assumes "k < 1000"
  shows "zero_pad 3 k =
    [''0123456789'' ! (k div 100), ''0123456789'' ! (k div 10 mod 10), ''0123456789'' ! (k mod 10)]"
proof -
  have r2: "replicate (3 - length [a]) c = [c, c]" for a c :: char
    by (simp add: numeral_2_eq_2)
  have r1: "replicate (3 - length [a, b]) c = [c]" for a b c :: char
    by simp
  have r0: "replicate (3 - length [a, b, d]) c = []" for a b c d :: char
    by simp
  have z: "''0123456789'' ! 0 = CHR ''0''"
    by simp
  consider "k < 10" | "10 \<le> k" "k < 100" | "100 \<le> k"
    by linarith
  then show ?thesis
  proof cases
    case 1
    then have "k div 100 = 0" "k div 10 mod 10 = 0" "k mod 10 = k"
      by simp_all
    then show ?thesis
      unfolding zero_pad_def str_nat_one [OF 1] r2 by (simp only: z append.simps)
  next
    case 2
    then have "k div 100 = 0" "k div 10 mod 10 = k div 10"
      by simp_all
    then show ?thesis
      unfolding zero_pad_def str_nat_two [OF 2] r1 by (simp only: z append.simps)
  next
    case 3
    show ?thesis
      unfolding zero_pad_def str_nat_three [OF 3 assms] r0 by (simp only: append.simps)
  qed
qed

lemma hundreds_tens_units_sum:
  fixes k :: nat
  shows "k = 100 * (k div 100) + 10 * (k div 10 mod 10) + k mod 10"
proof -
  define q where "q = k div 10"
  define c where "c = k mod 10"
  define a where "a = q div 10"
  define b where "b = q mod 10"
  have k: "k = 10 * q + c"
    unfolding q_def c_def by (simp only: mult_div_mod_eq)
  have q: "q = 10 * a + b"
    unfolding a_def b_def by (simp only: mult_div_mod_eq)
  have "k div 100 = a"
    unfolding a_def q_def by (simp add: div_mult2_eq [symmetric])
  moreover from k q have "k = 100 * a + 10 * b + c"
    by simp
  ultimately show ?thesis
    unfolding b_def c_def q_def by simp
qed

lemma hundreds_tens_units:
  fixes k l :: nat
  assumes "k < l"
  shows "k div 100 < l div 100 \<or> k div 100 = l div 100 \<and>
       (k div 10 mod 10 < l div 10 mod 10 \<or> k div 10 mod 10 = l div 10 mod 10 \<and>
          k mod 10 < l mod 10)"
proof -
  define a b c where "a = k div 100" and "b = k div 10 mod 10" and "c = k mod 10"
  define a' b' c' where "a' = l div 100" and "b' = l div 10 mod 10" and "c' = l mod 10"
  have k: "k = 100 * a + 10 * b + c" and l: "l = 100 * a' + 10 * b' + c'"
    unfolding a_def b_def c_def a'_def b'_def c'_def
    by (rule hundreds_tens_units_sum)+
  have bound: "b < 10" "c < 10" "b' < 10" "c' < 10"
    unfolding b_def c_def b'_def c'_def by simp_all
  from assms k l bound have "a < a' \<or> a = a' \<and> (b < b' \<or> b = b' \<and> c < c')"
    by linarith
  then show ?thesis
    unfolding a_def b_def c_def a'_def b'_def c'_def .
qed

lemma segment_file_name_less:
  assumes "k < l" and "l < 1000"
  shows "segment_file_name k < segment_file_name l"
proof -
  from assms have k: "k < 1000" by simp
  have d: "k div 100 < 10" "k div 10 mod 10 < 10" "k mod 10 < 10"
    "l div 100 < 10" "l div 10 mod 10 < 10" "l mod 10 < 10"
    using k assms(2) by simp_all
  have cmp: "''chunk_'' @ [a, b, c] @ ''.wav'' < ''chunk_'' @ [a', b', c'] @ ''.wav'' \<longleftrightarrow>
      a < a' \<or> a = a' \<and> (b < b' \<or> b = b' \<and> c < c')" for a b c a' b' c' :: char
    by simp
  from hundreds_tens_units [OF assms(1)] show ?thesis
    unfolding segment_file_name_def zero_pad_three [OF k] zero_pad_three [OF assms(2)] cmp
    by (simp only: digit_less d digit_eq)
qed


lemma append_less_append:
  fixes p :: "'a::linorder list"
  shows "(p @ a < p @ b) = (a < b)"
  by (induction p) simp_all

text \<open>What \<open>path_join\<close> puts in front of a segment's name.\<close>

lemma path_join_segment:
  "path_join t (segment_file_name k) =
     (if t = [] \<or> endswith t ''/'' then t else t @ ''/'') @ segment_file_name k"
  by (simp add: path_join_def segment_file_name_def startswith_def)

lemma chunk_path_less:
  assumes "k < l" and "l < 1000"
  shows "path_join t (segment_file_name k) < path_join t (segment_file_name l)"
  unfolding path_join_segment append_less_append
  using assms by (rule segment_file_name_less)

lemma sorted_map_upt:
  fixes f :: "nat \<Rightarrow> 'a::linorder"
  assumes "\<And>k l. a \<le> k \<Longrightarrow> k < l \<Longrightarrow> l < b \<Longrightarrow> f k \<le> f l"
  shows "sorted (map f [a..<b])"
  unfolding sorted_iff_nth_Suc
proof (intro allI impI)
  fix i assume "Suc i < length (map f [a..<b])"
  then have "Suc i < b - a" by simp
  then have "f (a + i) \<le> f (a + Suc i)"
    by (intro assms) simp_all
  with \<open>Suc i < b - a\<close> show "map f [a..<b] ! i \<le> map f [a..<b] ! Suc i"
    by simp
qed

lemma endswith_append: "endswith (xs @ p) p"
  by (simp add: endswith_def)

lemma segment_file_name_wav: "endswith (segment_file_name k) ''.wav''"
  unfolding segment_file_name_def
  using endswith_append [of "''chunk_'' @ zero_pad 3 k" "''.wav''"] by simp

lemma split_audio_segments:
  assumes "ffmpeg e file_path d (path_join (mkdtemp e (tmp_count s)) ''chunk_%03d.wav'')
      = Inr listing"
    and "mset listing = mset (map segment_file_name ks)"
  shows "fst (split_audio e s file_path d) =
    Inr (sort (map (\<lambda>k. path_join (mkdtemp e (tmp_count s)) (segment_file_name k)) ks))"
proof -
  let ?t = "mkdtemp e (tmp_count s)"
  from assms(2) have "set listing = set (map segment_file_name ks)"
    by (rule mset_eq_setD)
  then have "\<forall>f \<in> set listing. endswith f ''.wav''"
    by (auto simp: segment_file_name_wav)
  then have keep: "filter (\<lambda>f. endswith f ''.wav'') listing = listing"
    by (simp add: filter_id_conv)
  have "mset (map (path_join ?t) listing) =
      mset (map (\<lambda>k. path_join ?t (segment_file_name k)) ks)"
  proof -
    from assms(2) have "image_mset (path_join ?t) (mset listing) =
        image_mset (path_join ?t) (mset (map segment_file_name ks))"
      by simp
    then show ?thesis
      by (simp add: multiset.map_comp comp_def)
  qed
  then have "sort (map (path_join ?t) listing) =
      sort (map (\<lambda>k. path_join ?t (segment_file_name k)) ks)"
    by (intro properties_for_sort) simp_all
  with assms(1) keep show ?thesis
    by (simp add: split_audio_def Let_def)
qed

text \<open>
  While the counter stays below 1000 the names sort as the counters do: when the
  splitter leaves the first \<open>n \<le> 1000\<close> segment files, in whatever order the
  directory lists them, the chunk list is in the order of the counters.
\<close>

lemma up_to_thousand_chunks_in_order:
  assumes "n \<le> 1000"
    and "ffmpeg e file_path d (path_join (mkdtemp e (tmp_count s)) ''chunk_%03d.wav'')
      = Inr listing"
    and "mset listing = mset (map segment_file_name [0..<n])"
  shows "fst (split_audio e s file_path d) =
    Inr (map (\<lambda>k. path_join (mkdtemp e (tmp_count s)) (segment_file_name k)) [0..<n])"
proof -
  let ?g = "\<lambda>k. path_join (mkdtemp e (tmp_count s)) (segment_file_name k)"
  have "sorted (map ?g [0..<n])"
  proof (rule sorted_map_upt)
    fix k l :: nat assume "k < l" "l < n"
    with assms(1) have "?g k < ?g l"
      by (intro chunk_path_less) simp_all
    then show "?g k \<le> ?g l" by simp
  qed
  then have "sort (map ?g [0..<n]) = map ?g [0..<n]"
    by (rule sort_key_id_if_sorted [where f = "\<lambda>x. x", simplified])
  with split_audio_segments [OF assms(2,3)] show ?thesis
    by simp
qed


lemma sorted_with_late_entry:
  fixes f :: "nat \<Rightarrow> 'a::linorder"
  assumes "0 < a" and "a < b"
    and mono: "\<And>k l. k < l \<Longrightarrow> l < b \<Longrightarrow> f k \<le> f l"
    and "f (a - 1) \<le> f b" and "f b \<le> f a"
  shows "sorted (map f ([0..<a] @ [b] @ [a..<b]))"
proof -
  have front: "sorted (map f [0..<a])"
    using assms(2) by (intro sorted_map_upt mono) simp_all
  have rest: "sorted (map f [a..<b])"
    by (intro sorted_map_upt mono)
  have low: "f k \<le> f b" if "k < a" for k
  proof (cases "k = a - 1")
    case True
    with assms(4) show ?thesis by simp
  next
    case False
    with that have "k < a - 1" by simp
    with assms(1,2) have "f k \<le> f (a - 1)" by (intro mono) simp_all
    with assms(4) show ?thesis by simp
  qed
  have high: "f b \<le> f l" if "a \<le> l" "l < b" for l
  proof (cases "l = a")
    case True
    with assms(5) show ?thesis by simp
  next
    case False
    with that have "f a \<le> f l" by (intro mono) simp_all
    with assms(5) show ?thesis by simp
  qed
  have across: "f k \<le> f l" if "k < a" "a \<le> l" "l < b" for k l
    using low [OF that(1)] high [OF that(2,3)] by simp
  from front rest low high across show ?thesis
    by (auto simp: sorted_append)
qed

lemma mset_with_late_entry:
  assumes "a \<le> b"
  shows "mset ([0..<a] @ [b] @ [a..<b]) = mset [0..<Suc b]"
proof -
  have "[0..<a + (b - a)] = [0..<a] @ [a..<a + (b - a)]"
    by (rule upt_add_eq_append) simp
  with assms have "[0..<b] = [0..<a] @ [a..<b]"
    by simp
  then have "[0..<Suc b] = [0..<a] @ [a..<b] @ [b]"
    by simp
  then show ?thesis
    by simp
qed

lemma hundredth_before_last:
  "path_join ''/tmp/tmp0'' (segment_file_name 100) <
     path_join ''/tmp/tmp0'' (segment_file_name 1000)"
  by (simp add: path_join_def startswith_def endswith_def segment_file_name_def zero_pad_def
      str_nat.simps)

lemma late_chunk_sorts_early:
  "path_join ''/tmp/tmp0'' (segment_file_name 1000) <
     path_join ''/tmp/tmp0'' (segment_file_name 101)"
  by (simp add: path_join_def startswith_def endswith_def segment_file_name_def zero_pad_def
      str_nat.simps)

subsection \<open>The last lines\<close>

lemma last_n_all: "length xs \<le> n \<Longrightarrow> last_n n xs = xs"
  by (simp add: last_n_def)

lemma length_last_n: "length (last_n n xs) = min n (length xs)"
  by (simp add: last_n_def)

lemma last_n_suffix: "drop (length xs - n) xs = last_n n xs \<and> (\<exists>ys. xs = ys @ last_n n xs)"
  unfolding last_n_def by (metis append_take_drop_id)

section \<open>Persisted transcript\<close>

text \<open>
  C1. When a run yields the success event, the transcript file holds exactly the text
  that event carries, the event names that file, and the text is the newline-join of
  the display lines of all chunks in chunk order.
\<close>

theorem persisted_text_is_terminal_text:
  assumes "resolve_input e s inp = (Inr (af, nm), s1)"
    and "get_chunks e s1 af d = (Inr chunks, s2)"
    and "ev \<in> set (events (transcribe e s inp lang d))"
    and "is_success_event ev"
  shows "files (final (transcribe e s inp lang d)) (output_path nm) = Some (Text (preview ev))
       \<and> artifact ev = Some (output_path nm)
       \<and> preview ev = join newline (concat (map (chunk_lines e lang) chunks))"
proof -
  obtain evs r s3 where pc:
    "process_chunks e lang (length chunks) (clock e (ticks s2)) 0 chunks []
       (s2\<lparr>ticks := Suc (ticks s2)\<rparr>) = (evs, r, s3)"
    by (metis prod_cases3)
  note tr = transcribe_unfold [OF assms(1,2) pc]
  have no_success: "\<not> is_success_event x" if "x \<in> set evs" for x
  proof -
    from that obtain k where "k < length evs" "evs ! k = x"
      by (auto simp: in_set_conv_nth)
    with process_chunks_events [OF pc, of k] show ?thesis
      by (auto dest: chunk_event_not_success)
  qed
  show ?thesis
  proof (cases r)
    case (Inl err)
    with tr assms(3,4) no_success show ?thesis by auto
  next
    case (Inr ls)
    with process_chunks_done pc have ls: "ls = concat (map (chunk_lines e lang) chunks)"
      by fastforce
    show ?thesis
    proof (cases "can_write e (output_path nm)")
      case False
      with tr Inr assms(3,4) no_success show ?thesis by auto
    next
      case True
      with tr Inr assms(3,4) no_success ls show ?thesis by auto
    qed
  qed
qed


theorem persisted_text_is_terminal_text_witness:
  "files (final (transcribe demo_env empty_state (FilePath ''talk.mp3'') ''en'' 120))
     ''transcriptions/talk.txt'' =
   Some (Text (join newline [''[0:00:00 - 0:00:02]: hello'', ''[0:00:02 - 1:01:01]: world'',
      ''[0:00:00 - 0:00:02]: hello'', ''[0:00:02 - 1:01:01]: world'']))"
proof -
  let ?r = "transcribe demo_env empty_state (FilePath ''talk.mp3'') ''en'' 120"
  let ?ev = "\<lparr>status = done_status 9,
              preview = join newline [''[0:00:00 - 0:00:02]: hello'',
                ''[0:00:02 - 1:01:01]: world'', ''[0:00:00 - 0:00:02]: hello'',
                ''[0:00:02 - 1:01:01]: world''],
              artifact = Some ''transcriptions/talk.txt''\<rparr>"
  have h1: "resolve_input demo_env empty_state (FilePath ''talk.mp3'') =
      (Inr (''talk.mp3'', ''talk''), empty_state)"
    by (simp add: resolve_input_def demo_env_def)
  have h2: "get_chunks demo_env empty_state ''talk.mp3'' 120 =
      (Inr [''/tmp/tmp0/chunk_000.wav'', ''/tmp/tmp0/chunk_001.wav''],
       snd (get_chunks demo_env empty_state ''talk.mp3'' 120))"
  proof -
    have "fst (get_chunks demo_env empty_state ''talk.mp3'' 120) =
        Inr [''/tmp/tmp0/chunk_000.wav'', ''/tmp/tmp0/chunk_001.wav'']"
      by code_simp
    then show ?thesis by (simp add: prod_eq_iff)
  qed
  have h3: "?ev \<in> set (events ?r)"
    by code_simp
  have h4: "is_success_event ?ev"
    by code_simp
  have op: "output_path ''talk'' = ''transcriptions/talk.txt''"
    by (simp add: output_path_def)
  from persisted_text_is_terminal_text [OF h1 h2 h3 h4] show ?thesis
    by (simp add: op)
qed

section \<open>Failed recording\<close>

text \<open>
  C3. A recorded input whose samples are missing or empty makes the run yield exactly
  one event, the failure event with empty text and no file path, and no chunk event;
  the run leaves the state as it found it: no chunk is made, no call is made to the
  splitter or the engine, and no file is written.
\<close>

theorem empty_recording_one_error_event:
  assumes "audio_np = None \<or> audio_np = Some []"
  shows "events (transcribe e s (Recorded sr audio_np) lang d) =
           [\<lparr>status = failed_status (ValueError ''No audio data received from microphone.''),
             preview = [], artifact = None\<rparr>]
       \<and> is_error_event (hd (events (transcribe e s (Recorded sr audio_np) lang d)))
       \<and> filter is_chunk_event (events (transcribe e s (Recorded sr audio_np) lang d)) = []
       \<and> raised (transcribe e s (Recorded sr audio_np) lang d) = None
       \<and> final (transcribe e s (Recorded sr audio_np) lang d) = s"
  using assms
  by (auto simp: transcribe_def resolve_input_def save_recorded_audio_def failed_status_def
      is_error_event_def is_chunk_event_def startswith_def)

theorem empty_recording_one_error_event_witness:
  "length (events (transcribe demo_env empty_state (Recorded 16000 (Some [])) ''en'' 120)) = 1
   \<and> final (transcribe demo_env empty_state (Recorded 16000 (Some [])) ''en'' 120) = empty_state
   \<and> length (events (transcribe demo_env empty_state (Recorded 16000 None) ''en'' 120)) = 1"
  using empty_recording_one_error_event [of "Some []" demo_env empty_state 16000 "''en''" 120]
    empty_recording_one_error_event [of None demo_env empty_state 16000 "''en''" 120]
  by simp

section \<open>Progress estimate after a chunk\<close>

text \<open>
  C4. After chunk \<open>i\<close> of \<open>total_chunks\<close>, with \<open>0 \<le> elapsed\<close>, the estimate is
  \<open>avg = elapsed / (i + 1)\<close> and \<open>eta = avg * (total_chunks - i - 1)\<close>; both are
  non-negative, and \<open>eta\<close> is 0 after the last chunk.
\<close>

theorem estimate_nonnegative:
  assumes "i < total_chunks" and "0 \<le> elapsed"
  shows "estimate i total_chunks elapsed =
           (elapsed / real (i + 1), elapsed / real (i + 1) * real (total_chunks - i - 1))
       \<and> 0 \<le> fst (estimate i total_chunks elapsed)
       \<and> 0 \<le> snd (estimate i total_chunks elapsed)
       \<and> (i = total_chunks - 1 \<longrightarrow> snd (estimate i total_chunks elapsed) = 0)"
proof -
  from assms(1) have rest: "real_of_int (int total_chunks - int i - 1) = real (total_chunks - i - 1)"
    by (simp add: of_nat_diff)
  have cnt: "real_of_int (int i + 1) = real (i + 1)"
    by simp
  have est: "estimate i total_chunks elapsed =
      (elapsed / real (i + 1), elapsed / real (i + 1) * real (total_chunks - i - 1))"
    unfolding estimate_def Let_def rest cnt ..
  from assms(2) have avg: "0 \<le> elapsed / real (i + 1)"
    by simp
  then have eta: "0 \<le> elapsed / real (i + 1) * real (total_chunks - i - 1)"
    by (intro mult_nonneg_nonneg) simp_all
  have last: "i = total_chunks - 1 \<longrightarrow>
      elapsed / real (i + 1) * real (total_chunks - i - 1) = 0"
    by simp
  show ?thesis
    unfolding est fst_conv snd_conv using avg eta last by blast
qed

theorem estimate_nonnegative_witness:
  "(2::nat) < 3 \<and> (0::real) \<le> 9 \<and> estimate 2 3 9 = (3, 0) \<and> snd (estimate 2 3 9) = 0"
  using estimate_nonnegative [of 2 3 9] by simp

section \<open>Chunk duration zero or negative\<close>

text \<open>
  C7. With chunk duration 0 the chunk list is the input path alone and the state is
  untouched (no temporary directory, no call of the splitter); a run on a file path
  makes one external call in all, the engine's on that path.
\<close>

theorem zero_duration_single_chunk:
  "get_chunks e s audio_file 0 = (Inr [audio_file], s)
   \<and> calls (final (transcribe e s (FilePath audio_file) lang 0)) =
       calls s @ [Whisper audio_file lang]"
proof -
  have gc: "get_chunks e s audio_file 0 = (Inr [audio_file], s)"
    by (simp add: get_chunks_def)
  have ri: "resolve_input e s (FilePath audio_file) = (Inr (audio_file, stem e audio_file), s)"
    by (simp add: resolve_input_def)
  obtain evs r s3 where pc:
    "process_chunks e lang (length [audio_file]) (clock e (ticks s)) 0 [audio_file] []
       (s\<lparr>ticks := Suc (ticks s)\<rparr>) = (evs, r, s3)"
    by (metis prod_cases3)
  from process_chunks_calls [OF pc] have "calls s3 = calls s @ [Whisper audio_file lang]"
    by simp
  with transcribe_unfold [OF ri gc pc] gc show ?thesis
    by (auto split: sum.splits)
qed

text \<open>
  C10. A negative chunk duration gives what chunk duration 0 gives: the chunk list is
  the input path alone, the splitter is not called, and the whole run is the same.
\<close>

theorem negative_duration_as_zero:
  assumes "chunk_duration < 0"
  shows "get_chunks e s audio_file chunk_duration = (Inr [audio_file], s)
       \<and> get_chunks e s audio_file chunk_duration = get_chunks e s audio_file 0
       \<and> transcribe e s audio_input lang chunk_duration = transcribe e s audio_input lang 0"
proof -
  from assms have neg: "(0 < chunk_duration) = False" "((0::int) < 0) = False"
    by simp_all
  have "transcribe e s audio_input lang chunk_duration = transcribe e s audio_input lang 0"
    unfolding transcribe_def get_chunks_def neg if_False ..
  then show ?thesis
    using assms by (simp add: get_chunks_def)
qed

theorem negative_duration_as_zero_witness:
  "(-30 :: int) < 0
   \<and> fst (get_chunks demo_env empty_state ''talk.mp3'' (-30)) = Inr [''talk.mp3'']
   \<and> events (transcribe demo_env empty_state (FilePath ''talk.mp3'') ''en'' (-30)) =
       events (transcribe demo_env empty_state (FilePath ''talk.mp3'') ''en'' 0)"
  using negative_duration_as_zero [of "-30" demo_env empty_state "''talk.mp3''" "FilePath ''talk.mp3''" "''en''"]
  by simp

section \<open>Events of a run\<close>

text \<open>
  C2, as the code has it. When the input is resolved, the chunk list is obtained, the
  engine answers for every chunk and the transcript file can be written, the run
  yields one non-terminal event for each chunk, all of them chunk events, and then
  exactly one terminal event, the success event.
\<close>

theorem one_event_per_chunk_then_terminal:
  assumes "resolve_input e s inp = (Inr (af, nm), s1)"
    and "get_chunks e s1 af d = (Inr chunks, s2)"
    and "list_all (engine_ok e lang) chunks"
    and "can_write e (output_path nm)"
  shows "length (filter (\<lambda>ev. \<not> is_terminal_event ev) (events (transcribe e s inp lang d)))
           = length chunks
       \<and> length (filter is_terminal_event (events (transcribe e s inp lang d))) = 1
       \<and> length (events (transcribe e s inp lang d)) = Suc (length chunks)
       \<and> list_all is_chunk_event (butlast (events (transcribe e s inp lang d)))
       \<and> is_success_event (last (events (transcribe e s inp lang d)))"
proof -
  from assms(1,2) obtain evs r s3 where pc:
    "process_chunks e lang (length chunks) (clock e (ticks s2)) 0 chunks []
       (s2\<lparr>ticks := Suc (ticks s2)\<rparr>) = (evs, r, s3)"
    and ev: "events (transcribe e s inp lang d) =
       (case r of
          Inl err \<Rightarrow> evs
        | Inr ls \<Rightarrow>
            if can_write e (output_path nm)
            then evs @ [\<lparr>status = done_status (clock e (ticks s3) - clock e (ticks s2)),
                         preview = join newline ls, artifact = Some (output_path nm)\<rparr>]
            else evs)"
    by (rule transcribe_events)
  have "\<forall>c \<in> set chunks. \<exists>res. engine e c lang = Inr res"
  proof
    fix c assume "c \<in> set chunks"
    with assms(3) have "engine_ok e lang c" by (simp add: list_all_iff)
    then show "\<exists>res. engine e c lang = Inr res"
      by (cases "engine e c lang") (simp_all add: engine_ok_def)
  qed
  then have "\<exists>evs out s'.
      process_chunks e lang (length chunks) (clock e (ticks s2)) 0 chunks []
        (s2\<lparr>ticks := Suc (ticks s2)\<rparr>) = (evs, Inr out, s')"
    by (rule process_chunks_all_ok)
  with pc obtain ls where r: "r = Inr ls"
    by auto
  with process_chunks_done pc have len: "length evs = length chunks"
    by fastforce
  have chunk: "is_chunk_event x \<and> \<not> is_terminal_event x" if "x \<in> set evs" for x
  proof -
    from that obtain k where "k < length evs" "evs ! k = x"
      by (auto simp: in_set_conv_nth)
    with process_chunks_events [OF pc, of k] show ?thesis by auto
  qed
  then have f1: "filter (\<lambda>ev. \<not> is_terminal_event ev) evs = evs"
    and f2: "filter is_terminal_event evs = []"
    and f3: "list_all is_chunk_event evs"
    by (auto simp: filter_empty_conv list_all_iff)
  from ev r assms(4) have
    "events (transcribe e s inp lang d) =
       evs @ [\<lparr>status = done_status (clock e (ticks s3) - clock e (ticks s2)),
                preview = join newline ls, artifact = Some (output_path nm)\<rparr>]"
    by simp
  with f1 f2 f3 len show ?thesis
    by (simp add: done_event_kind)
qed

theorem one_event_per_chunk_then_terminal_witness:
  "length (filter (\<lambda>ev. \<not> is_terminal_event ev)
     (events (transcribe demo_env empty_state (FilePath ''talk.mp3'') ''en'' 120))) = 2
   \<and> length (filter is_terminal_event
     (events (transcribe demo_env empty_state (FilePath ''talk.mp3'') ''en'' 120))) = 1
   \<and> is_success_event (last
     (events (transcribe demo_env empty_state (FilePath ''talk.mp3'') ''en'' 120)))"
proof -
  have h1: "resolve_input demo_env empty_state (FilePath ''talk.mp3'') =
      (Inr (''talk.mp3'', ''talk''), empty_state)"
    by (simp add: resolve_input_def demo_env_def)
  have "fst (get_chunks demo_env empty_state ''talk.mp3'' 120) =
      Inr [''/tmp/tmp0/chunk_000.wav'', ''/tmp/tmp0/chunk_001.wav'']"
    by code_simp
  then have h2: "get_chunks demo_env empty_state ''talk.mp3'' 120 =
      (Inr [''/tmp/tmp0/chunk_000.wav'', ''/tmp/tmp0/chunk_001.wav''],
       snd (get_chunks demo_env empty_state ''talk.mp3'' 120))"
    by (simp add: prod_eq_iff)
  have h3: "list_all (engine_ok demo_env ''en'')
      [''/tmp/tmp0/chunk_000.wav'', ''/tmp/tmp0/chunk_001.wav'']"
    by (simp add: engine_ok_def demo_env_def)
  have h4: "can_write demo_env (output_path ''talk'')"
    by (simp add: demo_env_def)
  from one_event_per_chunk_then_terminal [OF h1 h2 h3 h4] show ?thesis
    by simp
qed

text \<open>
  C2 as stated asks only that the input is resolved and the engine answers. With a
  transcript file that cannot be written the run yields its one chunk event and
  ends in the error of the write, with no terminal event.
\<close>

theorem write_failure_no_terminal_event:
  "fst (resolve_input readonly_env empty_state (FilePath ''talk.mp3'')) =
     Inr (''talk.mp3'', ''talk'')
   \<and> fst (get_chunks readonly_env empty_state ''talk.mp3'' 0) = Inr [''talk.mp3'']
   \<and> engine readonly_env ''talk.mp3'' ''en'' = Inr demo_result
   \<and> length (events (transcribe readonly_env empty_state (FilePath ''talk.mp3'') ''en'' 0)) = 1
   \<and> filter is_terminal_event
       (events (transcribe readonly_env empty_state (FilePath ''talk.mp3'') ''en'' 0)) = []
   \<and> raised (transcribe readonly_env empty_state (FilePath ''talk.mp3'') ''en'' 0) =
       Some WriteFailed"
  by code_simp

text \<open>
  C8. The text of the event yielded after chunk \<open>i\<close> is the newline-join of the last
  ten of the lines accumulated over the chunks up to \<open>i\<close>, of all of them when there
  are fewer than ten.
\<close>

theorem preview_is_last_ten_lines:
  assumes "resolve_input e s inp = (Inr (af, nm), s1)"
    and "get_chunks e s1 af d = (Inr chunks, s2)"
    and "i < length chunks"
    and "i < length (events (transcribe e s inp lang d))"
  shows "preview (events (transcribe e s inp lang d) ! i) =
           join newline
             (last_n 10 (concat (map (chunk_lines e lang) (take (Suc i) chunks))))
       \<and> is_chunk_event (events (transcribe e s inp lang d) ! i)"
proof -
  from assms(1,2) obtain evs r s3 where pc:
    "process_chunks e lang (length chunks) (clock e (ticks s2)) 0 chunks []
       (s2\<lparr>ticks := Suc (ticks s2)\<rparr>) = (evs, r, s3)"
    and ev: "events (transcribe e s inp lang d) =
       (case r of
          Inl err \<Rightarrow> evs
        | Inr ls \<Rightarrow>
            if can_write e (output_path nm)
            then evs @ [\<lparr>status = done_status (clock e (ticks s3) - clock e (ticks s2)),
                         preview = join newline ls, artifact = Some (output_path nm)\<rparr>]
            else evs)"
    by (rule transcribe_events)
  have i: "i < length evs"
  proof (cases r)
    case (Inl err)
    with ev assms(4) show ?thesis by simp
  next
    case (Inr ls)
    with process_chunks_done pc have "length evs = length chunks" by fastforce
    with assms(3) show ?thesis by simp
  qed
  then have "events (transcribe e s inp lang d) ! i = evs ! i"
    using ev by (simp add: nth_append split: sum.splits)
  with process_chunks_events [OF pc i] show ?thesis by simp
qed

theorem preview_is_last_ten_lines_witness:
  "preview (events (transcribe talk_env empty_state (FilePath ''talk.mp3'') ''en'' 120) ! 1) =
     join newline
       [''[0:00:02 - 0:00:03]: 2'', ''[0:00:03 - 0:00:04]: 3'', ''[0:00:04 - 0:00:05]: 4'',
        ''[0:00:05 - 0:00:06]: 5'', ''[0:00:00 - 0:00:01]: 0'', ''[0:00:01 - 0:00:02]: 1'',
        ''[0:00:02 - 0:00:03]: 2'', ''[0:00:03 - 0:00:04]: 3'', ''[0:00:04 - 0:00:05]: 4'',
        ''[0:00:05 - 0:00:06]: 5'']"
proof -
  have h1: "resolve_input talk_env empty_state (FilePath ''talk.mp3'') =
      (Inr (''talk.mp3'', ''talk''), empty_state)"
    by (simp add: resolve_input_def talk_env_def demo_env_def)
  have "fst (get_chunks talk_env empty_state ''talk.mp3'' 120) =
      Inr [''/tmp/tmp0/chunk_000.wav'', ''/tmp/tmp0/chunk_001.wav'']"
    by code_simp
  then have h2: "get_chunks talk_env empty_state ''talk.mp3'' 120 =
      (Inr [''/tmp/tmp0/chunk_000.wav'', ''/tmp/tmp0/chunk_001.wav''],
       snd (get_chunks talk_env empty_state ''talk.mp3'' 120))"
    by (simp add: prod_eq_iff)
  have h3: "1 < length [''/tmp/tmp0/chunk_000.wav'', ''/tmp/tmp0/chunk_001.wav'']"
    by simp
  have h4: "1 < length (events (transcribe talk_env empty_state (FilePath ''talk.mp3'') ''en'' 120))"
    by code_simp
  have lines: "last_n 10 (concat (map (chunk_lines talk_env ''en'')
        (take (Suc 1) [''/tmp/tmp0/chunk_000.wav'', ''/tmp/tmp0/chunk_001.wav'']))) =
       [''[0:00:02 - 0:00:03]: 2'', ''[0:00:03 - 0:00:04]: 3'', ''[0:00:04 - 0:00:05]: 4'',
        ''[0:00:05 - 0:00:06]: 5'', ''[0:00:00 - 0:00:01]: 0'', ''[0:00:01 - 0:00:02]: 1'',
        ''[0:00:02 - 0:00:03]: 2'', ''[0:00:03 - 0:00:04]: 3'', ''[0:00:04 - 0:00:05]: 4'',
        ''[0:00:05 - 0:00:06]: 5'']"
    by code_simp
  from preview_is_last_ten_lines [OF h1 h2 h3 h4] show ?thesis
    unfolding lines by simp
qed

section \<open>The chunk list\<close>

text \<open>
  C6, as the code has it. With a chunk duration of 0 or less the chunk list is the
  audio file alone; with a positive one it has one entry for each \<open>.wav\<close> file the
  splitter left in its directory. When the list is not empty and the engine answers
  for its first chunk, the run's first event is a chunk event.
\<close>

theorem chunk_list_from_listing:
  assumes "resolve_input e s inp = (Inr (af, nm), s1)"
    and "get_chunks e s1 af d = (Inr chunks, s2)"
  shows "(d \<le> 0 \<longrightarrow> chunks = [af])
       \<and> (0 < d \<longrightarrow>
            (\<exists>listing.
               ffmpeg e af d (path_join (mkdtemp e (tmp_count s1)) ''chunk_%03d.wav'')
                 = Inr listing
               \<and> length chunks = length (filter (\<lambda>f. endswith f ''.wav'') listing)))
       \<and> (chunks \<noteq> [] \<and> engine_ok e lang (hd chunks) \<longrightarrow>
            events (transcribe e s inp lang d) \<noteq> []
            \<and> is_chunk_event (hd (events (transcribe e s inp lang d)))
            \<and> \<not> is_terminal_event (hd (events (transcribe e s inp lang d))))"
proof -
  have a: "d \<le> 0 \<longrightarrow> chunks = [af]"
    using assms(2) by (auto simp: get_chunks_def)
  have b: "0 < d \<longrightarrow>
      (\<exists>listing.
         ffmpeg e af d (path_join (mkdtemp e (tmp_count s1)) ''chunk_%03d.wav'') = Inr listing
         \<and> length chunks = length (filter (\<lambda>f. endswith f ''.wav'') listing))"
    using assms(2)
    by (auto simp: get_chunks_def split_audio_def Let_def split: sum.splits)
  have c: "events (transcribe e s inp lang d) \<noteq> []
      \<and> is_chunk_event (hd (events (transcribe e s inp lang d)))
      \<and> \<not> is_terminal_event (hd (events (transcribe e s inp lang d)))"
    if ne: "chunks \<noteq> []" and ok: "engine_ok e lang (hd chunks)"
  proof -
    from assms(1,2) obtain evs r s3 where pc:
      "process_chunks e lang (length chunks) (clock e (ticks s2)) 0 chunks []
         (s2\<lparr>ticks := Suc (ticks s2)\<rparr>) = (evs, r, s3)"
      and ev: "events (transcribe e s inp lang d) =
         (case r of
            Inl err \<Rightarrow> evs
          | Inr ls \<Rightarrow>
              if can_write e (output_path nm)
              then evs @ [\<lparr>status = done_status (clock e (ticks s3) - clock e (ticks s2)),
                           preview = join newline ls, artifact = Some (output_path nm)\<rparr>]
              else evs)"
      by (rule transcribe_events)
    from ne obtain c cs where cs: "chunks = c # cs" by (cases chunks) auto
    with ok obtain res where "engine e c lang = Inr res"
      by (auto simp: engine_ok_def split: sum.splits)
    with pc cs have "evs \<noteq> []"
      by (auto simp: Let_def split: prod.splits)
    then have "0 < length evs" by simp
    from process_chunks_events [OF pc this] \<open>evs \<noteq> []\<close>
    have "is_chunk_event (hd evs) \<and> \<not> is_terminal_event (hd evs)"
      by (simp add: hd_conv_nth)
    with ev \<open>evs \<noteq> []\<close> show ?thesis
      by (auto split: sum.splits)
  qed
  from a b c show ?thesis by blast
qed


theorem chunk_list_from_listing_witness:
  "fst (get_chunks demo_env empty_state ''talk.mp3'' 0) = Inr [''talk.mp3'']
   \<and> is_chunk_event (hd (events (transcribe demo_env empty_state (FilePath ''talk.mp3'') ''en'' 0)))
   \<and> length [''/tmp/tmp0/chunk_000.wav'', ''/tmp/tmp0/chunk_001.wav''] =
       length (filter (\<lambda>f. endswith f ''.wav'') [''chunk_001.wav'', ''ffmpeg.log'', ''chunk_000.wav''])
   \<and> is_chunk_event (hd (events (transcribe demo_env empty_state (FilePath ''talk.mp3'') ''en'' 120)))"
proof -
  have h1: "resolve_input demo_env empty_state (FilePath ''talk.mp3'') =
      (Inr (''talk.mp3'', ''talk''), empty_state)"
    by (simp add: resolve_input_def demo_env_def)
  have z: "get_chunks demo_env empty_state ''talk.mp3'' 0 = (Inr [''talk.mp3''], empty_state)"
    by (simp add: get_chunks_def)
  have "fst (get_chunks demo_env empty_state ''talk.mp3'' 120) =
      Inr [''/tmp/tmp0/chunk_000.wav'', ''/tmp/tmp0/chunk_001.wav'']"
    by code_simp
  then have p: "get_chunks demo_env empty_state ''talk.mp3'' 120 =
      (Inr [''/tmp/tmp0/chunk_000.wav'', ''/tmp/tmp0/chunk_001.wav''],
       snd (get_chunks demo_env empty_state ''talk.mp3'' 120))"
    by (simp add: prod_eq_iff)
  have ok: "engine_ok demo_env ''en'' c" for c
    by (simp add: engine_ok_def demo_env_def)
  have ff: "ffmpeg demo_env f d pat = Inr [''chunk_001.wav'', ''ffmpeg.log'', ''chunk_000.wav'']"
    for f d pat
    by (simp add: demo_env_def)
  from chunk_list_from_listing [OF h1 z, of "''en''"] chunk_list_from_listing [OF h1 p, of "''en''"]
  show ?thesis
    by (simp add: ok ff z)
qed

text \<open>
  C6 as stated says the list is never empty. When the splitter leaves no file, the
  list is empty and the success event is the only event of the run.
\<close>

theorem no_chunk_files_no_chunk_event:
  "fst (resolve_input silent_env empty_state (FilePath ''talk.mp3'')) =
     Inr (''talk.mp3'', ''talk'')
   \<and> fst (get_chunks silent_env empty_state ''talk.mp3'' 120) = Inr []
   \<and> length (events (transcribe silent_env empty_state (FilePath ''talk.mp3'') ''en'' 120)) = 1
   \<and> filter is_chunk_event
       (events (transcribe silent_env empty_state (FilePath ''talk.mp3'') ''en'' 120)) = []
   \<and> is_success_event
       (hd (events (transcribe silent_env empty_state (FilePath ''talk.mp3'') ''en'' 120)))"
  by code_simp

section \<open>Display lines\<close>

text \<open>
  C9, as the code has it. The time formatter maps 0 to \<open>0:00:00\<close> and 3661 to
  \<open>1:01:01\<close>. A segment whose start and end lie from 0 up to, not including, 86400
  seconds is formatted as \<open>[H:MM:SS - H:MM:SS]: text\<close>, with the times cut to whole
  seconds and the text stripped of the whitespace around it.
\<close>

theorem display_line_within_a_day:
  assumes "0 \<le> seg_start seg" and "seg_start seg < 86400"
    and "0 \<le> seg_end seg" and "seg_end seg < 86400"
  shows "format_time 0 = ''0:00:00'' \<and> format_time 3661 = ''1:01:01''
       \<and> format_segment seg =
           ''['' @ spec_hms (nat \<lfloor>seg_start seg\<rfloor>) @ '' - '' @ spec_hms (nat \<lfloor>seg_end seg\<rfloor>)
             @ '']: '' @ strip (seg_text seg)"
proof -
  have z: "format_time 0 = ''0:00:00''"
    by code_simp
  have o: "format_time 3661 = ''1:01:01''"
    by code_simp
  from assms z o show ?thesis
    by (simp add: format_segment_def Let_def format_time_within_a_day)
qed

theorem display_line_within_a_day_witness:
  "format_segment \<lparr>seg_start = 3599.9, seg_end = 3661, seg_text = '' so it goes ''\<rparr> =
     ''[0:59:59 - 1:01:01]: so it goes''"
proof -
  let ?seg = "\<lparr>seg_start = 3599.9, seg_end = 3661, seg_text = '' so it goes ''\<rparr>"
  have h: "0 \<le> seg_start ?seg" "seg_start ?seg < 86400" "0 \<le> seg_end ?seg"
    "seg_end ?seg < 86400"
    by simp_all
  have v: "''['' @ spec_hms (nat \<lfloor>seg_start ?seg\<rfloor>) @ '' - '' @ spec_hms (nat \<lfloor>seg_end ?seg\<rfloor>)
             @ '']: '' @ strip (seg_text ?seg) = ''[0:59:59 - 1:01:01]: so it goes''"
    by code_simp
  from display_line_within_a_day [OF h] show ?thesis
    unfolding v by simp
qed

text \<open>
  C9 as stated gives every segment the line \<open>[H:MM:SS - H:MM:SS]: text\<close>. From 86400
  seconds on the formatter puts the days in front of the time, and whitespace around
  the text is not kept.
\<close>

theorem display_line_counterexample:
  "format_segment \<lparr>seg_start = 90000, seg_end = 90001, seg_text = ''hi''\<rparr> =
     ''[1 day, 1:00:00 - 1 day, 1:00:01]: hi''
   \<and> spec_display_line \<lparr>seg_start = 90000, seg_end = 90001, seg_text = ''hi''\<rparr> =
     ''[25:00:00 - 25:00:01]: hi''
   \<and> format_segment \<lparr>seg_start = 90000, seg_end = 90001, seg_text = ''hi''\<rparr> \<noteq>
     spec_display_line \<lparr>seg_start = 90000, seg_end = 90001, seg_text = ''hi''\<rparr>
   \<and> format_segment \<lparr>seg_start = 0, seg_end = 2, seg_text = '' hi''\<rparr> =
     ''[0:00:00 - 0:00:02]: hi''
   \<and> spec_display_line \<lparr>seg_start = 0, seg_end = 2, seg_text = '' hi''\<rparr> =
     ''[0:00:00 - 0:00:02]:  hi''"
proof -
  have a: "format_segment \<lparr>seg_start = 90000, seg_end = 90001, seg_text = ''hi''\<rparr> =
      ''[1 day, 1:00:00 - 1 day, 1:00:01]: hi''"
    by code_simp
  have b: "spec_display_line \<lparr>seg_start = 90000, seg_end = 90001, seg_text = ''hi''\<rparr> =
      ''[25:00:00 - 25:00:01]: hi''"
    by (simp add: spec_display_line_def spec_hms_def zero_pad_def str_nat.simps)
  have c: "format_segment \<lparr>seg_start = 0, seg_end = 2, seg_text = '' hi''\<rparr> =
      ''[0:00:00 - 0:00:02]: hi''"
    by code_simp
  have d: "spec_display_line \<lparr>seg_start = 0, seg_end = 2, seg_text = '' hi''\<rparr> =
      ''[0:00:00 - 0:00:02]:  hi''"
    by code_simp
  show ?thesis
    unfolding a b c d by simp
qed

section \<open>Order of the chunk files\<close>

text \<open>
  C5 on a recording cut into 1001 segments. The chunk list has segment 1000, the
  last in time, at index 101, between segments 100 and 101, and segments 101 to 999
  one index late: it is not the list of the segments in the order of their counters.
\<close>

theorem thousand_and_one_chunks_out_of_order:
  "fst (split_audio long_env empty_state ''talk.mp3'' 10) =
     Inr (map (\<lambda>k. path_join ''/tmp/tmp0'' (segment_file_name k))
            ([0..<101] @ [1000] @ [101..<1000]))
   \<and> fst (split_audio long_env empty_state ''talk.mp3'' 10) \<noteq>
     Inr (map (\<lambda>k. path_join ''/tmp/tmp0'' (segment_file_name k)) [0..<1001])"
proof -
  let ?g = "\<lambda>k. path_join ''/tmp/tmp0'' (segment_file_name k)"
  let ?L = "map ?g [0..<1001]"
  have dir: "mkdtemp long_env (tmp_count empty_state) = ''/tmp/tmp0''"
    by (simp add: long_env_def demo_env_def empty_state_def str_nat.simps)
  have ff: "ffmpeg long_env f d p = Inr (map segment_file_name [0..<1001])" for f d p
    by (simp add: long_env_def)
  have run: "fst (split_audio long_env empty_state ''talk.mp3'' 10) = Inr (sort ?L)"
    using split_audio_segments [OF ff refl, of empty_state "''talk.mp3''" 10]
    unfolding dir .
  have s: "Suc 1000 = (1001::nat)"
    by simp
  have ordered: "sorted (map ?g ([0..<101] @ [1000] @ [101..<1000]))"
  proof (rule sorted_with_late_entry)
    show "(0::nat) < 101" and "(101::nat) < 1000"
      by simp_all
    show "?g k \<le> ?g l" if "k < l" "l < 1000" for k l
      using chunk_path_less [OF that, of "''/tmp/tmp0''"] by (rule less_imp_le)
    have "(101::nat) - 1 = 100"
      by simp
    with hundredth_before_last show "?g (101 - 1) \<le> ?g 1000"
      by (simp only: less_imp_le)
    from late_chunk_sorts_early show "?g 1000 \<le> ?g 101"
      by (rule less_imp_le)
  qed
  have same: "mset (map ?g ([0..<101] @ [1000] @ [101..<1000])) = mset ?L"
  proof -
    have "mset ([0..<101] @ [1000] @ [101..<1000]) = mset [0..<Suc 1000]"
      by (rule mset_with_late_entry) simp
    then have "image_mset ?g (mset ([0..<101] @ [1000] @ [101..<1000])) =
        image_mset ?g (mset [0..<1001])"
      unfolding s by (rule arg_cong)
    then show ?thesis
      by (simp only: mset_map)
  qed
  from same ordered have sorted_run:
    "sort ?L = map ?g ([0..<101] @ [1000] @ [101..<1000])"
    by (rule properties_for_sort)
  have "sort ?L \<noteq> ?L"
  proof
    assume "sort ?L = ?L"
    then have "sorted ?L"
      by (metis sorted_sort)
    moreover have "(101::nat) \<le> 1000" "1000 < length ?L"
      by simp_all
    ultimately have "?L ! 101 \<le> ?L ! 1000"
      by (rule sorted_nth_mono)
    then have "?g 101 \<le> ?g 1000"
      by simp
    with late_chunk_sorts_early show False
      by simp
  qed
  with run sorted_run show ?thesis
    by (simp only: sum.inject simp_thms)
qed

end
